theory Spec2Isabelle
  imports Complex_Main
begin

section \<open>Numbers\<close>

text \<open>
  The calculation engine works on JavaScript numbers. They are modelled as exact reals
  (no rounding, no overflow). JavaScript never raises on a division by zero: it yields
  \<open>Infinity\<close>, \<open>-Infinity\<close> or \<open>NaN\<close>. Those values are not reals, so every division
  whose divisor can be zero is written with \<open>jsDiv\<close>, and a function that meets one
  returns \<open>None\<close>: \<open>None\<close> reads "a non-finite number arose", \<open>Some v\<close> reads "every
  intermediate value was finite and the source returns \<open>v\<close>". The same holds for a read
  past the end of an array of numbers, which yields \<open>undefined\<close> and turns the arithmetic
  that uses it into \<open>NaN\<close>.
\<close>

definition jsDiv :: "real \<Rightarrow> real \<Rightarrow> real option" where
  "jsDiv a b = (if b = 0 then None else Some (a / b))"

text \<open>
  The test \<open>a / b > c\<close>, where the quotient is only compared: \<open>a / 0\<close> is \<open>Infinity\<close>
  for \<open>a > 0\<close> (above every number), \<open>-Infinity\<close> for \<open>a < 0\<close> and \<open>NaN\<close> for \<open>a = 0\<close>
  (every comparison with it is false).
\<close>

definition jsDivGreater :: "real \<Rightarrow> real \<Rightarrow> real \<Rightarrow> bool" where
  "jsDivGreater a b c = (if b = 0 then 0 < a else c < a / b)"

text \<open>\<open>Math.pow\<close> at a whole exponent; \<open>Math.pow(0, k)\<close> is \<open>Infinity\<close> for \<open>k < 0\<close>.\<close>

definition jsPow :: "real \<Rightarrow> int \<Rightarrow> real option" where
  "jsPow x k = (if x = 0 \<and> k < 0 then None else Some (x powi k))"

text \<open>\<open>xs[t]\<close> on an array of numbers.\<close>

definition jsNth :: "real list \<Rightarrow> nat \<Rightarrow> real option" where
  "jsNth xs t = (if t < length xs then Some (xs ! t) else None)"

section \<open>Amortization engine (App.jsx, realroi.amortizationSchedule)\<close>

record AmortizationRow =
  month :: int
  payment :: real
  interest :: real
  principal :: real
  balance :: real

record Schedule =
  paymentMonthly :: real
  rows :: "AmortizationRow list"

text \<open>
  The loop \<open>for (let i = 1; i <= n; i++)\<close>: \<open>bal\<close> is the running (unfloored) balance,
  only the \<open>balance\<close> field of the pushed row is floored at zero. The counter \<open>i\<close> is a
  whole number; the bound \<open>n = termYears * 12\<close> is any number, so the loop pushes
  \<open>floor(n)\<close> rows when \<open>n\<close> is not whole.
\<close>

function amortLoop :: "real \<Rightarrow> real \<Rightarrow> real \<Rightarrow> int \<Rightarrow> real \<Rightarrow> AmortizationRow list" where
  "amortLoop r m n i bal =
     (if of_int i \<le> n then
        (let interest_i = bal * r;
             principal_i = m - interest_i;
             bal' = bal - principal_i
         in \<lparr>month = i, payment = m, interest = interest_i, principal = principal_i,
              balance = max 0 bal'\<rparr> # amortLoop r m n (i + 1) bal')
      else [])"
  by pat_completeness auto
termination
  by (relation "measure (\<lambda>(r, m, n, i, bal). nat (\<lfloor>n\<rfloor> + 1 - i))")
    (auto simp: le_floor_iff)

declare amortLoop.simps [simp del]

text \<open>\<open>let r = rateAPR / 12; if (r <= 0) r = 0.0000001;\<close>\<close>

definition monthlyRate :: "real \<Rightarrow> real" where
  "monthlyRate rateAPR = (let r = rateAPR / 12 in if r \<le> 0 then 1 / 10000000 else r)"

text \<open>
  \<open>termYears\<close> is any number (the form passes \<open>parseFloat(value)\<close>), and so is
  \<open>n = termYears * 12\<close>. The base \<open>1 + r\<close> of \<open>Math.pow(1 + r, -n)\<close> is above \<open>1\<close>, since
  \<open>r > 0\<close> after the clamp, so the power is the real power \<open>(1 + r) powr (- n)\<close>, a positive
  number. The payment divides by \<open>1 - Math.pow(1 + r, -n)\<close>, which is \<open>0\<close> for \<open>n = 0\<close>.
\<close>

definition amortizationSchedule :: "real \<Rightarrow> real \<Rightarrow> real \<Rightarrow> Schedule option" where
  "amortizationSchedule loan rateAPR termYears =
     (let n = termYears * 12;
          r = monthlyRate rateAPR
      in case jsDiv (loan * r) (1 - (1 + r) powr (- n)) of
           None \<Rightarrow> None
         | Some m \<Rightarrow> Some \<lparr>paymentMonthly = m, rows = amortLoop r m n 1 loan\<rparr>)"

section \<open>Amortization engine in binary floating point\<close>

text \<open>
  The numbers of the source are IEEE 754 binary64 values. The definitions of this theory
  compute with exact reals. To state what rounding does to the schedule, the lines of
  \<open>amortizationSchedule\<close> are also written with every operation rounded to nearest, ties
  to even.
\<close>

text \<open>Rounding a real to the nearest whole number, a tie to the even one.\<close>

definition roundEven :: "real \<Rightarrow> int" where
  "roundEven q =
     (let f = \<lfloor>q\<rfloor>; d = q - of_int f
      in if d < 1 / 2 then f else if 1 / 2 < d then f + 1 else if even f then f else f + 1)"

text \<open>
  \<open>round64 x\<close> is the binary64 value nearest to \<open>x\<close>: 53 significant bits, the exponent
  bounded below by \<open>-1022\<close> (so the spacing never falls below \<open>2\<^sup>-\<^sup>1\<^sup>0\<^sup>7\<^sup>4\<close>), and \<open>None\<close>
  where the rounded magnitude reaches \<open>2\<^sup>1\<^sup>0\<^sup>2\<^sup>4\<close> (the source yields \<open>Infinity\<close>).
\<close>

definition round64 :: "real \<Rightarrow> real option" where
  "round64 x =
     (if x = 0 then Some 0
      else
        (let e = max \<lfloor>log 2 \<bar>x\<bar>\<rfloor> (- 1022);
             u = 2 powi (e - 52);
             y = of_int (roundEven (x / u)) * u
         in if \<bar>y\<bar> < 2 powi 1024 then Some y else None))"

text \<open>
  The loop and the function of the amortization engine once more, every operation
  rounded. The arguments are taken to be binary64 values, \<open>i++\<close> and the comparisons are
  exact, and \<open>Math.pow\<close> is taken as correctly rounded (the language leaves its accuracy
  to the implementation).
\<close>

function amortLoop64 ::
  "real \<Rightarrow> real \<Rightarrow> real \<Rightarrow> int \<Rightarrow> real \<Rightarrow> AmortizationRow list option" where
  "amortLoop64 r m n i bal =
     (if of_int i \<le> n then
        (case round64 (bal * r) of
           None \<Rightarrow> None
         | Some interest_i \<Rightarrow>
             (case round64 (m - interest_i) of
                None \<Rightarrow> None
              | Some principal_i \<Rightarrow>
                  (case round64 (bal - principal_i) of
                     None \<Rightarrow> None
                   | Some bal' \<Rightarrow>
                       (case amortLoop64 r m n (i + 1) bal' of
                          None \<Rightarrow> None
                        | Some rest \<Rightarrow>
                            Some (\<lparr>month = i, payment = m, interest = interest_i,
                                    principal = principal_i, balance = max 0 bal'\<rparr> # rest)))))
      else Some [])"
  by pat_completeness auto
termination
  by (relation "measure (\<lambda>(r, m, n, i, bal). nat (\<lfloor>n\<rfloor> + 1 - i))")
    (auto simp: le_floor_iff)

declare amortLoop64.simps [simp del]

definition amortizationSchedule64 :: "real \<Rightarrow> real \<Rightarrow> real \<Rightarrow> Schedule option" where
  "amortizationSchedule64 loan rateAPR termYears =
     (case round64 (termYears * 12) of
        None \<Rightarrow> None
      | Some n \<Rightarrow>
     (case round64 (rateAPR / 12) of
        None \<Rightarrow> None
      | Some r0 \<Rightarrow>
     (case (if r0 \<le> 0 then round64 (1 / 10000000) else Some r0) of
        None \<Rightarrow> None
      | Some r \<Rightarrow>
     (case round64 (1 + r) of
        None \<Rightarrow> None
      | Some q \<Rightarrow>
     (case round64 (q powr (- n)) of
        None \<Rightarrow> None
      | Some p \<Rightarrow>
     (case round64 (1 - p) of
        None \<Rightarrow> None
      | Some d \<Rightarrow>
     (case round64 (loan * r) of
        None \<Rightarrow> None
      | Some lr \<Rightarrow>
     (case jsDiv lr d of
        None \<Rightarrow> None
      | Some x \<Rightarrow>
     (case round64 x of
        None \<Rightarrow> None
      | Some m \<Rightarrow>
     (case amortLoop64 r m n 1 loan of
        None \<Rightarrow> None
      | Some rs \<Rightarrow> Some \<lparr>paymentMonthly = m, rows = rs\<rparr>))))))))))"

section \<open>Inflation adjuster (App.jsx, realroi.toReal)\<close>

definition toReal :: "real \<Rightarrow> real \<Rightarrow> real \<Rightarrow> real option" where
  "toReal nominal cpiBase cpiNow =
     (case jsDiv cpiBase cpiNow of None \<Rightarrow> None | Some q \<Rightarrow> Some (nominal * q))"

section \<open>Financial summarizer (App.jsx, realroi.summarizeFinancials)\<close>

text \<open>
  The returned object \<open>{ principalPaid, interestPaid, balance }\<close>; its \<open>balance\<close> field
  is named \<open>endBalance\<close> here, apart from the \<open>balance\<close> field of a row.
\<close>

record Financials =
  principalPaid :: real
  interestPaid :: real
  endBalance :: real

text \<open>
  The loop \<open>for (let i = 0; i < months; i++)\<close> with its two accumulators. It reads
  \<open>rows[i]\<close> only for \<open>0 \<le> i < months \<le> rows.length\<close>, always inside the array.
\<close>

function sumLoop :: "AmortizationRow list \<Rightarrow> int \<Rightarrow> int \<Rightarrow> real \<Rightarrow> real \<Rightarrow> real \<times> real" where
  "sumLoop rs months i pp ip =
     (if i < months then
        sumLoop rs months (i + 1) (pp + principal (rs ! nat i)) (ip + interest (rs ! nat i))
      else (pp, ip))"
  by pat_completeness auto
termination
  by (relation "measure (\<lambda>(rs, months, i, pp, ip). nat (months - i))") auto

declare sumLoop.simps [simp del]

text \<open>
  \<open>years\<close> is a whole number of years. \<open>rows[months - 1]?.balance ?? 0\<close> is \<open>0\<close> when the
  index is outside the array.
\<close>

definition summarizeFinancials :: "AmortizationRow list \<Rightarrow> int \<Rightarrow> Financials" where
  "summarizeFinancials rs years =
     (let months = min (int (length rs)) (years * 12) in
      if months = 0 then
        \<lparr>principalPaid = 0, interestPaid = 0,
         endBalance = (if length rs > 0 then balance (rs ! 0) else 0)\<rparr>
      else
        (case sumLoop rs months 0 0 0 of
           (pp, ip) \<Rightarrow>
             \<lparr>principalPaid = pp, interestPaid = ip,
              endBalance =
                (if 0 \<le> months - 1 \<and> months - 1 < int (length rs)
                 then balance (rs ! nat (months - 1)) else 0)\<rparr>))"

section \<open>Benchmark projector (App.jsx, realroi.realEquityCurve, terminalWealthFromCashFlows)\<close>

text \<open>
  The loop of \<open>realEquityCurve\<close>: \<open>curve\<close> starts as \<open>[1]\<close> and is never empty, so
  \<open>curve[curve.length - 1]\<close> is its last element.
\<close>

function curveLoop ::
  "real list \<Rightarrow> real list \<Rightarrow> real list \<Rightarrow> real \<Rightarrow> nat \<Rightarrow> real list \<Rightarrow> real list option" where
  "curveLoop returns dividends cpiGrowth feeMo t curve =
     (if t < length returns then
        (case jsNth dividends t of
           None \<Rightarrow> None
         | Some d \<Rightarrow>
             (case jsNth cpiGrowth t of
                None \<Rightarrow> None
              | Some c \<Rightarrow>
                  (let totalReturn = returns ! t + d in
                   case jsDiv ((1 + totalReturn) * (1 - feeMo)) (1 + c) of
                     None \<Rightarrow> None
                   | Some g \<Rightarrow>
                       curveLoop returns dividends cpiGrowth feeMo (t + 1)
                         (curve @ [last curve * g]))))
      else Some curve)"
  by pat_completeness auto
termination
  by (relation "measure (\<lambda>(returns, dividends, cpiGrowth, feeMo, t, curve). length returns - t)")
    auto

declare curveLoop.simps [simp del]

definition realEquityCurve ::
  "real list \<Rightarrow> real list \<Rightarrow> real list \<Rightarrow> real \<Rightarrow> real list option" where
  "realEquityCurve returns dividends cpiGrowth feeBpsPerYear =
     (let feeMo = (feeBpsPerYear / 10000) / 12 in
      curveLoop returns dividends cpiGrowth feeMo 0 [1])"

text \<open>
  The loop of \<open>terminalWealthFromCashFlows\<close>; \<open>T = curve.length - 1\<close> is passed in, and an
  index \<open>t >= curve.length\<close> is skipped by \<open>continue\<close>.
\<close>

function wealthLoop :: "real list \<Rightarrow> real list \<Rightarrow> nat \<Rightarrow> nat \<Rightarrow> real \<Rightarrow> real option" where
  "wealthLoop curve cashFlowsReal T t wealth =
     (if t < length cashFlowsReal then
        (if t \<ge> length curve then wealthLoop curve cashFlowsReal T (t + 1) wealth
         else
           (case jsDiv (curve ! T) (curve ! t) of
              None \<Rightarrow> None
            | Some grow \<Rightarrow>
                wealthLoop curve cashFlowsReal T (t + 1) (wealth + cashFlowsReal ! t * grow)))
      else Some wealth)"
  by pat_completeness auto
termination
  by (relation "measure (\<lambda>(curve, cashFlowsReal, T, t, wealth). length cashFlowsReal - t)") auto

declare wealthLoop.simps [simp del]

definition terminalWealthFromCashFlows :: "real list \<Rightarrow> real list \<Rightarrow> real option" where
  "terminalWealthFromCashFlows curve cashFlowsReal =
     (let T = int (length curve) - 1 in
      if T < 0 \<or> length curve = 0 then Some 0
      else wealthLoop curve cashFlowsReal (nat T) 0 0)"

section \<open>Return solver (RealROICalculator.jsx, npv and irrBisection)\<close>

text \<open>
  \<open>cashflows.reduce((acc, cf, t) => acc + cf / Math.pow(1 + rate, t), 0)\<close>: the fold runs
  over the cash flows from the left, \<open>t\<close> is the index. \<open>Math.pow(1 + rate, t)\<close> is zero
  exactly when \<open>1 + rate = 0\<close> and \<open>t > 0\<close>.
\<close>

fun npvLoop :: "real \<Rightarrow> real list \<Rightarrow> nat \<Rightarrow> real \<Rightarrow> real option" where
  "npvLoop rate [] t acc = Some acc"
| "npvLoop rate (cf # cfs) t acc =
     (case jsDiv cf ((1 + rate) ^ t) of
        None \<Rightarrow> None
      | Some q \<Rightarrow> npvLoop rate cfs (t + 1) (acc + q))"

definition npv :: "real \<Rightarrow> real list \<Rightarrow> real option" where
  "npv rate cashflows = npvLoop rate cashflows 0 0"

text \<open>The result \<open>number | null\<close> of \<open>irrBisection\<close>.\<close>

datatype irr_result = Rate real | NoSolution

text \<open>
  The loop \<open>for (let i = 0; i < maxIter; i++)\<close>. A non-finite net present value at a
  midpoint leaves the model (\<open>None\<close>).
\<close>

function bisectLoop ::
  "real list \<Rightarrow> real \<Rightarrow> nat \<Rightarrow> nat \<Rightarrow> real \<Rightarrow> real \<Rightarrow> real \<Rightarrow> real \<Rightarrow> irr_result option" where
  "bisectLoop cashflows tol maxIter i low high fLow fHigh =
     (if i < maxIter then
        (let mid = (low + high) / 2 in
         case npv mid cashflows of
           None \<Rightarrow> None
         | Some fMid \<Rightarrow>
             if \<bar>fMid\<bar> < tol then Some (Rate mid)
             else if fLow * fMid < 0 then bisectLoop cashflows tol maxIter (i + 1) low mid fLow fMid
             else bisectLoop cashflows tol maxIter (i + 1) mid high fMid fHigh)
      else Some NoSolution)"
  by pat_completeness auto
termination
  by (relation "measure (\<lambda>(cashflows, tol, maxIter, i, low, high, fLow, fHigh). maxIter - i)")
    auto

declare bisectLoop.simps [simp del]

definition irrBisection :: "real list \<Rightarrow> real \<Rightarrow> real \<Rightarrow> real \<Rightarrow> nat \<Rightarrow> irr_result option" where
  "irrBisection cashflows low high tol maxIter =
     (case npv low cashflows of
        None \<Rightarrow> None
      | Some fLow \<Rightarrow>
          (case npv high cashflows of
             None \<Rightarrow> None
           | Some fHigh \<Rightarrow>
               if fLow * fHigh > 0 then Some NoSolution
               else bisectLoop cashflows tol maxIter 0 low high fLow fHigh))"

section \<open>Cash-flow composer (App.jsx, realroi.appreciationGain and annualCashFlow)\<close>

text \<open>
  \<open>years\<close> is a whole number of years: \<open>calculateResults\<close> passes \<open>timelineYears\<close>, which
  the form sets to \<open>5\<close>, \<open>10\<close> or \<open>15\<close>.
\<close>

definition appreciationGain :: "real \<Rightarrow> real \<Rightarrow> int \<Rightarrow> real option" where
  "appreciationGain price_0 rate_0 years =
     (case jsPow (1 + rate_0) years of None \<Rightarrow> None | Some p \<Rightarrow> Some (price_0 * (p - 1)))"

text \<open>
  The objects of \<open>calculateResults\<close>: \<open>deal\<close> (the state of the form),
  \<open>mergedInputs = { ...DEFAULTS, ...deal }\<close> and the argument
  \<open>{ ...mergedInputs, piMonthly, pmiMonthly }\<close> of \<open>annualCashFlow\<close>, each an extension of
  the one before. \<open>DEFAULTS\<close> also has \<open>etfErBps\<close> and \<open>advisorFeeBps\<close>, which the fields
  of \<open>deal\<close> override in the merge.
\<close>

datatype FairnessMode = Matched | Initial

record Deal =
  price :: real
  downPct :: real
  rate :: real
  termYears :: real
  taxesPct :: real
  insuranceAnnual :: real
  rentMonthly :: real
  closingCosts :: real
  reserves :: real
  fairnessMode :: FairnessMode
  appreciationRate :: real
  timelineYears :: int
  etfErBps :: real
  advisorFeeBps :: real

record MergedInputs = Deal +
  vacancyMonths10yr :: real
  pmPct :: real
  repairs10yr :: real
  warranty10yr :: real
  defaultMarginalRate :: real
  appreciation10yrDefault :: real
  saleCostPct :: real
  pmiAnnualRate :: real

record CashFlowConfig = MergedInputs +
  piMonthly :: real
  pmiMonthly :: "real option"

text \<open>\<open>(cfg.pmiMonthly ?? 0)\<close>: a missing \<open>pmiMonthly\<close> counts as \<open>0\<close>.\<close>

definition annualCashFlow :: "CashFlowConfig \<Rightarrow> real" where
  "annualCashFlow cfg =
     (let rentAnnual = rentMonthly cfg * 12;
          pm = rentAnnual * pmPct cfg;
          taxes = price cfg * taxesPct cfg;
          vacancy = (vacancyMonths10yr cfg / 10) * rentMonthly cfg;
          repairs = repairs10yr cfg / 10;
          warranty = warranty10yr cfg / 10;
          pmi = (case pmiMonthly cfg of None \<Rightarrow> 0 | Some v \<Rightarrow> v) * 12
      in rentAnnual -
           (piMonthly cfg * 12 + taxes + insuranceAnnual cfg + pm + vacancy + repairs + warranty
            + pmi))"

section \<open>The result pipeline (App.jsx, calculateResults, up to totalRealROI)\<close>

text \<open>The \<open>value\<close> fields of \<open>MOCK_CPI_DATA.data\<close>: \<open>217.4 + i * 0.45\<close> for \<open>i < 180\<close>.\<close>

definition MOCK_CPI_DATA :: "real list" where
  "MOCK_CPI_DATA = map (\<lambda>i. 2174 / 10 + real i * (45 / 100)) [0..<180]"

text \<open>
  \<open>xs[i] ?? d\<close> and \<open>xs[i]?.field ?? d\<close>: the element at a whole index, \<open>d\<close> when the
  index is outside the array.
\<close>

definition nthOr :: "'a list \<Rightarrow> int \<Rightarrow> 'a \<Rightarrow> 'a" where
  "nthOr xs i d = (if 0 \<le> i \<and> i < int (length xs) then xs ! nat i else d)"

definition mergedInputs :: "Deal \<Rightarrow> MergedInputs" where
  "mergedInputs deal =
     Deal.extend deal
       (MergedInputs.fields 5 (8 / 100) 15000 5000 (32 / 100) (55 / 1000) (7 / 100) (6 / 1000))"

text \<open>The initial state of the form, \<open>useState({...})\<close> in \<open>App\<close>.\<close>

definition defaultDeal :: Deal where
  "defaultDeal =
     \<lparr>price = 450000, downPct = 20 / 100, rate = 65 / 10, termYears = 30, taxesPct = 2 / 100,
      insuranceAnnual = 1800, rentMonthly = 2600, closingCosts = 8000, reserves = 10000,
      fairnessMode = Matched, appreciationRate = 55 / 1000, timelineYears = 10,
      etfErBps = 3, advisorFeeBps = 0\<rparr>"

text \<open>
  A row of \<open>ledger\<close>. Its fields \<open>interestPaid\<close> and \<open>principalPaid\<close> are named
  \<open>ledgerInterestPaid\<close> and \<open>ledgerPrincipalPaid\<close> here, apart from those of
  \<open>Financials\<close>.
\<close>

record LedgerEntry =
  year :: int
  nominalCashFlow :: real
  cumulativeNominalCashFlow :: real
  ledgerInterestPaid :: real
  ledgerPrincipalPaid :: real
  loanBalance :: real
  taxSavings :: real

text \<open>
  The loop \<open>for (let y = 1; y <= timelineYears; y++)\<close> that fills \<open>ledger\<close>.
  \<open>currentLTV = financials.balance / price\<close> is only read by the test
  \<open>currentLTV > 0.80\<close>. \<open>ledger[y - 2]?.interestPaid || 0\<close> is \<open>0\<close> for the first year.
\<close>

function ledgerLoop ::
  "MergedInputs \<Rightarrow> Schedule \<Rightarrow> real \<Rightarrow> bool \<Rightarrow> int \<Rightarrow> real \<Rightarrow> LedgerEntry list
   \<Rightarrow> LedgerEntry list" where
  "ledgerLoop inputs schedule loan hasPMI y cumulativeCashFlow ledger =
     (if y \<le> timelineYears inputs then
        (let financials = summarizeFinancials (rows schedule) y;
             pmiMonthly_y =
               (if hasPMI \<and> jsDivGreater (endBalance financials) (price inputs) (80 / 100)
                then (loan * pmiAnnualRate inputs) / 12 else 0);
             nominalAnnualCashFlow =
               annualCashFlow
                 (MergedInputs.extend inputs
                    (CashFlowConfig.fields (paymentMonthly schedule) (Some pmiMonthly_y)));
             cumulativeCashFlow' = cumulativeCashFlow + nominalAnnualCashFlow;
             interestThisYear =
               interestPaid financials -
                 (if 0 \<le> y - 2 \<and> y - 2 < int (length ledger)
                  then ledgerInterestPaid (ledger ! nat (y - 2)) else 0);
             taxSavings_y =
               (interestThisYear + price inputs * taxesPct inputs) * defaultMarginalRate inputs
         in ledgerLoop inputs schedule loan hasPMI (y + 1) cumulativeCashFlow'
              (ledger @
                [\<lparr>year = y, nominalCashFlow = nominalAnnualCashFlow,
                  cumulativeNominalCashFlow = cumulativeCashFlow',
                  ledgerInterestPaid = interestPaid financials,
                  ledgerPrincipalPaid = principalPaid financials,
                  loanBalance = endBalance financials,
                  taxSavings = taxSavings_y\<rparr>]))
      else ledger)"
  by pat_completeness auto
termination
  by (relation "measure (\<lambda>(inputs, schedule, loan, hasPMI, y, cumulativeCashFlow, ledger).
        nat (timelineYears inputs + 1 - y))") auto

declare ledgerLoop.simps [simp del]

text \<open>Lines 110 to 141 of \<open>calculateResults\<close>: the schedule and the ledger.\<close>

definition calculateResults_ledger :: "Deal \<Rightarrow> LedgerEntry list option" where
  "calculateResults_ledger deal =
     (let inputs = mergedInputs deal;
          downPayment = price deal * downPct deal;
          loan = price deal - downPayment;
          hasPMI = downPct deal < 20 / 100
      in case amortizationSchedule loan (rate deal / 100) (termYears deal) of
           None \<Rightarrow> None
         | Some schedule \<Rightarrow> Some (ledgerLoop inputs schedule loan hasPMI 1 0 []))"

text \<open>
  Lines 143 to 154 of \<open>calculateResults\<close>: the value of \<open>totalRealROI\<close>. The fallback
  object of \<open>ledger[timelineYears - 1] || {...}\<close> has the three fields \<open>principalPaid\<close>,
  \<open>cumulativeNominalCashFlow\<close> and \<open>loanBalance\<close> only, the only ones read afterwards.
  The sale price and the net proceeds (lines 148 to 151) do not enter \<open>totalRealROI\<close>.
\<close>

definition calculateResults_totalRealROI :: "Deal \<Rightarrow> real option" where
  "calculateResults_totalRealROI deal =
     (let loan = price deal - price deal * downPct deal;
          cpiBase = MOCK_CPI_DATA ! 0;
          cpiTimelineEnd = nthOr MOCK_CPI_DATA (timelineYears deal * 12 - 1) cpiBase
      in case calculateResults_ledger deal of
           None \<Rightarrow> None
         | Some ledger \<Rightarrow>
             (let finalLedgerEntry =
                    nthOr ledger (timelineYears deal - 1)
                      \<lparr>year = 0, nominalCashFlow = 0, cumulativeNominalCashFlow = 0,
                       ledgerInterestPaid = 0, ledgerPrincipalPaid = 0, loanBalance = loan,
                       taxSavings = 0\<rparr>
              in case appreciationGain (price deal) (appreciationRate deal) (timelineYears deal) of
                   None \<Rightarrow> None
                 | Some appreciation \<Rightarrow>
                     (let principalPaid_f = ledgerPrincipalPaid finalLedgerEntry;
                          totalTaxSavings = foldl (\<lambda>acc yr. acc + taxSavings yr) 0 ledger;
                          totalNominalROI =
                            appreciation + principalPaid_f
                              + cumulativeNominalCashFlow finalLedgerEntry + totalTaxSavings
                      in toReal totalNominalROI cpiBase cpiTimelineEnd)))"

section \<open>Per-period deflation, as the specification words it\<close>

text \<open>
  Following the specification (section 4.4: "applied per-period, not just at the
  endpoints, so that cash flows realized in different periods are each deflated to the
  base period before being summed"): the appreciation and the principal paid are realised
  at the end of the timeline and deflated with its index; the cash flow and the tax
  savings of year \<open>y\<close> are deflated with the index of the last month of that year, then
  summed. This is also what the sibling variant App.tsx computes (lines 153 to 168).
\<close>

fun perPeriodFlows :: "real \<Rightarrow> real \<Rightarrow> LedgerEntry list \<Rightarrow> real option" where
  "perPeriodFlows cpiBase cpiTimelineEnd [] = Some 0"
| "perPeriodFlows cpiBase cpiTimelineEnd (yr # rest) =
     (case toReal (nominalCashFlow yr + taxSavings yr) cpiBase
             (nthOr MOCK_CPI_DATA (year yr * 12 - 1) cpiTimelineEnd) of
        None \<Rightarrow> None
      | Some v \<Rightarrow>
          (case perPeriodFlows cpiBase cpiTimelineEnd rest of
             None \<Rightarrow> None
           | Some w \<Rightarrow> Some (v + w)))"

definition perPeriod_totalRealROI :: "Deal \<Rightarrow> real option" where
  "perPeriod_totalRealROI deal =
     (let loan = price deal - price deal * downPct deal;
          cpiBase = MOCK_CPI_DATA ! 0;
          cpiTimelineEnd = nthOr MOCK_CPI_DATA (timelineYears deal * 12 - 1) cpiBase
      in case calculateResults_ledger deal of
           None \<Rightarrow> None
         | Some ledger \<Rightarrow>
             (let finalLedgerEntry =
                    nthOr ledger (timelineYears deal - 1)
                      \<lparr>year = 0, nominalCashFlow = 0, cumulativeNominalCashFlow = 0,
                       ledgerInterestPaid = 0, ledgerPrincipalPaid = 0, loanBalance = loan,
                       taxSavings = 0\<rparr>
              in case appreciationGain (price deal) (appreciationRate deal) (timelineYears deal) of
                   None \<Rightarrow> None
                 | Some appreciation \<Rightarrow>
                     (case toReal (appreciation + ledgerPrincipalPaid finalLedgerEntry)
                             cpiBase cpiTimelineEnd of
                        None \<Rightarrow> None
                      | Some endValue \<Rightarrow>
                          (case perPeriodFlows cpiBase cpiTimelineEnd ledger of
                             None \<Rightarrow> None
                           | Some flows \<Rightarrow> Some (endValue + flows)))))"

section \<open>Auxiliary notions\<close>

text \<open>
  The annuity relation used in the proofs about the schedule: with \<open>k\<close> payments of \<open>m\<close>
  left at monthly rate \<open>r\<close>, the running balance \<open>b\<close> is the present value of those
  payments, \<open>b = m (1 - (1 + r)\<^sup>-\<^sup>k) / r\<close>, written without division.
\<close>

definition annuity :: "real \<Rightarrow> real \<Rightarrow> nat \<Rightarrow> real \<Rightarrow> bool" where
  "annuity r m k b \<longleftrightarrow> b * r * (1 + r) ^ k = m * ((1 + r) ^ k - 1)"

section \<open>The amortization engine\<close>

lemma monthlyRate_pos: "0 < monthlyRate rateAPR"
  by (simp add: monthlyRate_def Let_def)


lemma powr_neg_lt_one:
  fixes q :: real
  assumes "1 < q" "0 < n"
  shows "q powr (- n) < 1"
proof -
  from assms have "q powr (- n) < q powr 0" by (intro powr_less_mono) simp_all
  with assms show ?thesis by simp
qed

text \<open>A whole number \<open>k\<close> of months: the real power is the inverse of the \<open>k\<close>-th power.\<close>

lemma powr_neg_whole:
  fixes q :: real
  assumes "0 < q"
  shows "q powr (- real k) = 1 / q ^ k"
  using assms by (simp add: powr_minus_divide powr_realpow)

text \<open>
  For a positive term (\<open>tYears\<close> stands for the argument \<open>termYears\<close>) the payment's
  denominator is positive, so a schedule is returned.
\<close>

lemma amortizationSchedule_some:
  assumes "0 < tYears"
  shows "amortizationSchedule loan rateAPR tYears =
           Some \<lparr>paymentMonthly =
                   loan * monthlyRate rateAPR /
                     (1 - (1 + monthlyRate rateAPR) powr (- (tYears * 12))),
                 rows = amortLoop (monthlyRate rateAPR)
                   (loan * monthlyRate rateAPR /
                     (1 - (1 + monthlyRate rateAPR) powr (- (tYears * 12))))
                   (tYears * 12) 1 loan\<rparr>"
proof -
  have "1 < 1 + monthlyRate rateAPR" using monthlyRate_pos [of rateAPR] by simp
  moreover from assms have "0 < tYears * 12" by simp
  ultimately have "(1 + monthlyRate rateAPR) powr (- (tYears * 12)) < 1"
    by (rule powr_neg_lt_one)
  then show ?thesis
    by (simp add: amortizationSchedule_def jsDiv_def Let_def)
qed

subsection \<open>The annuity invariant of the loop\<close>

lemma annuity_step:
  assumes "annuity r m (Suc k) b"
  shows "annuity r m k (b - (m - b * r))"
proof -
  from assms have "b * r * ((1 + r) * (1 + r) ^ k) = m * ((1 + r) * (1 + r) ^ k - 1)"
    by (simp add: annuity_def)
  then show ?thesis
    unfolding annuity_def by (simp add: algebra_simps)
qed

lemma annuity_zero: "r \<noteq> 0 \<Longrightarrow> annuity r m 0 b \<Longrightarrow> b = 0"
  by (simp add: annuity_def)

lemma annuity_nonneg:
  assumes "0 < r" "0 \<le> m" "annuity r m k b"
  shows "0 \<le> b"
proof -
  from assms(1) have q: "1 \<le> (1 + r) ^ k" by (simp add: one_le_power)
  with assms(2) have "0 \<le> m * ((1 + r) ^ k - 1)" by simp
  with assms(3) have "0 \<le> b * (r * (1 + r) ^ k)" by (simp add: annuity_def mult.assoc)
  moreover from assms(1) q have "0 < r * (1 + r) ^ k" by simp
  ultimately show ?thesis by (simp add: zero_le_mult_iff)
qed

lemma annuity_interest_le:
  assumes "0 < r" "0 \<le> m" "annuity r m k b"
  shows "b * r \<le> m"
proof -
  from assms(1) have q: "0 < (1 + r) ^ k" by simp
  from assms(3) have "(b * r) * (1 + r) ^ k = m * (1 + r) ^ k - m"
    by (simp add: annuity_def algebra_simps)
  with assms(2) have "(b * r) * (1 + r) ^ k \<le> m * (1 + r) ^ k" by simp
  with q show ?thesis by simp
qed

lemma amortLoop_done: "n < of_int i \<Longrightarrow> amortLoop r m n i b = []"
  by (simp add: amortLoop.simps)

lemma amortLoop_step:
  "of_int i \<le> n \<Longrightarrow>
   amortLoop r m n i b =
     \<lparr>month = i, payment = m, interest = b * r, principal = m - b * r,
      balance = max 0 (b - (m - b * r))\<rparr> # amortLoop r m n (i + 1) (b - (m - b * r))"
  by (subst amortLoop.simps) (simp add: Let_def)

text \<open>
  The loop is entered at month \<open>i\<close> with \<open>k = floor(n) + 1 - i\<close> rows still to push.
\<close>

lemma amortLoop_last_month: "i = \<lfloor>n\<rfloor> + 1 - int 0 \<Longrightarrow> n < of_int i"
proof -
  assume "i = \<lfloor>n\<rfloor> + 1 - int 0"
  then have "\<lfloor>n\<rfloor> < i" by simp
  then show "n < of_int i" by (simp only: floor_less_iff)
qed

lemma amortLoop_next_month:
  "i = \<lfloor>n\<rfloor> + 1 - int (Suc k) \<Longrightarrow> of_int i \<le> n \<and> i + 1 = \<lfloor>n\<rfloor> + 1 - int k"
proof -
  assume i: "i = \<lfloor>n\<rfloor> + 1 - int (Suc k)"
  then have "i \<le> \<lfloor>n\<rfloor>" by simp
  then have "of_int i \<le> n" by (simp only: le_floor_iff)
  with i show ?thesis by simp
qed

lemma amortLoop_length: "i = \<lfloor>n\<rfloor> + 1 - int k \<Longrightarrow> length (amortLoop r m n i b) = k"
proof (induction k arbitrary: i b)
  case 0
  then have "n < of_int i" by (rule amortLoop_last_month)
  then show ?case by (simp add: amortLoop_done)
next
  case (Suc k)
  from amortLoop_next_month [OF Suc.prems]
  have i: "of_int i \<le> n" "i + 1 = \<lfloor>n\<rfloor> + 1 - int k" by simp_all
  from Suc.IH [OF i(2)] i(1) show ?case by (simp add: amortLoop_step)
qed

lemma amortLoop_sum_principal:
  assumes "r \<noteq> 0"
  shows "i = \<lfloor>n\<rfloor> + 1 - int k \<Longrightarrow> annuity r m k b \<Longrightarrow>
         sum_list (map principal (amortLoop r m n i b)) = b"
proof (induction k arbitrary: i b)
  case 0
  from "0.prems"(1) have "n < of_int i" by (rule amortLoop_last_month)
  with assms "0.prems"(2) show ?case by (simp add: amortLoop_done annuity_zero)
next
  case (Suc k)
  from amortLoop_next_month [OF Suc.prems(1)]
  have i: "of_int i \<le> n" "i + 1 = \<lfloor>n\<rfloor> + 1 - int k" by simp_all
  from Suc.prems(2) have "annuity r m k (b - (m - b * r))" by (rule annuity_step)
  with Suc.IH i(2)
  have "sum_list (map principal (amortLoop r m n (i + 1) (b - (m - b * r)))) = b - (m - b * r)"
    by blast
  with i(1) show ?case by (simp add: amortLoop_step)
qed

lemma amortLoop_balances:
  assumes "0 < r" "0 \<le> m"
  shows "i = \<lfloor>n\<rfloor> + 1 - int k \<Longrightarrow> annuity r m k b \<Longrightarrow>
         (\<forall>row \<in> set (amortLoop r m n i b). 0 \<le> balance row \<and> balance row \<le> b) \<and>
         sorted_wrt (\<lambda>x y. y \<le> x) (map balance (amortLoop r m n i b)) \<and>
         (0 < k \<longrightarrow> balance (last (amortLoop r m n i b)) = 0)"
proof (induction k arbitrary: i b)
  case 0
  from "0.prems"(1) have "n < of_int i" by (rule amortLoop_last_month)
  then show ?case by (simp add: amortLoop_done)
next
  case (Suc k)
  define b' where "b' = b - (m - b * r)"
  from amortLoop_next_month [OF Suc.prems(1)]
  have i: "of_int i \<le> n" "i + 1 = \<lfloor>n\<rfloor> + 1 - int k" by simp_all
  from Suc.prems(2) have inv': "annuity r m k b'" unfolding b'_def by (rule annuity_step)
  from assms inv' have nonneg: "0 \<le> b'" by (rule annuity_nonneg)
  from assms Suc.prems(2) have "b * r \<le> m" by (rule annuity_interest_le)
  then have le: "b' \<le> b" by (simp add: b'_def)
  from Suc.IH [OF i(2) inv']
  have IH1: "\<forall>row \<in> set (amortLoop r m n (i + 1) b'). 0 \<le> balance row \<and> balance row \<le> b'"
    and IH2: "sorted_wrt (\<lambda>x y. y \<le> x) (map balance (amortLoop r m n (i + 1) b'))"
    and IH3: "0 < k \<longrightarrow> balance (last (amortLoop r m n (i + 1) b')) = 0"
    by blast+
  have unfold: "amortLoop r m n i b =
     \<lparr>month = i, payment = m, interest = b * r, principal = m - b * r,
      balance = max 0 b'\<rparr> # amortLoop r m n (i + 1) b'"
    unfolding b'_def using i(1) by (rule amortLoop_step)
  have len: "length (amortLoop r m n (i + 1) b') = k" using i(2) by (rule amortLoop_length)
  have "\<forall>row \<in> set (amortLoop r m n i b). 0 \<le> balance row \<and> balance row \<le> b"
    using IH1 nonneg le by (auto simp: unfold)
  moreover have "sorted_wrt (\<lambda>x y. y \<le> x) (map balance (amortLoop r m n i b))"
    using IH1 IH2 nonneg by (auto simp: unfold)
  moreover have "balance (last (amortLoop r m n i b)) = 0"
  proof (cases k)
    case 0
    with len have "amortLoop r m n (i + 1) b' = []" by simp
    moreover from assms(1) have "r \<noteq> 0" by simp
    from this inv' [unfolded 0] have "b' = 0" by (rule annuity_zero)
    ultimately show ?thesis by (simp add: unfold)
  next
    case (Suc j)
    with len have "amortLoop r m n (i + 1) b' \<noteq> []" by auto
    with IH3 Suc show ?thesis by (simp add: unfold)
  qed
  ultimately show ?case by blast
qed

text \<open>
  For a whole number \<open>k\<close> of months the payment formula establishes the invariant for the
  whole loan.
\<close>

lemma payment_annuity:
  fixes r :: real
  assumes "0 < r" "0 < k"
  shows "annuity r (loan * r / (1 - (1 + r) powr (- real k))) k loan"
proof -
  define q where "q = (1 + r) ^ k"
  from assms have q1: "1 < q" unfolding q_def by (simp add: one_less_power)
  from assms have p: "(1 + r) powr (- real k) = 1 / q"
    unfolding q_def by (intro powr_neg_whole) simp
  from q1 have "loan * r / (1 - 1 / q) = loan * r * q / (q - 1)"
    by (simp add: field_simps)
  with q1 show ?thesis
    unfolding annuity_def q_def [symmetric] p by simp
qed

lemma payment_nonneg:
  fixes r :: real
  assumes "0 < r" "0 < n" "0 \<le> loan"
  shows "0 \<le> loan * r / (1 - (1 + r) powr (- n))"
proof -
  from assms have "(1 + r) powr (- n) < 1" by (intro powr_neg_lt_one) simp_all
  with assms show ?thesis by simp
qed

lemma payment_ge:
  fixes r :: real
  assumes "0 < r" "0 < n" "0 \<le> loan"
  shows "loan * r \<le> loan * r / (1 - (1 + r) powr (- n))"
proof -
  from assms have "(1 + r) powr (- n) < 1" by (intro powr_neg_lt_one) simp_all
  moreover have "0 \<le> (1 + r) powr (- n)" by simp
  ultimately have d: "0 < 1 * (1 - (1 + r) powr (- n))" "1 - (1 + r) powr (- n) \<le> 1"
    by simp_all
  from assms have "0 \<le> loan * r" by simp
  from divide_left_mono [OF d(2) this d(1)] show ?thesis by simp
qed

lemma amortLoop_sum_interest:
  "i = \<lfloor>n\<rfloor> + 1 - int k \<Longrightarrow>
   sum_list (map interest (amortLoop r m n i b)) =
     real k * m - sum_list (map principal (amortLoop r m n i b))"
proof (induction k arbitrary: i b)
  case 0
  then have "n < of_int i" by (rule amortLoop_last_month)
  then show ?case by (simp add: amortLoop_done)
next
  case (Suc k)
  from amortLoop_next_month [OF Suc.prems]
  have i: "of_int i \<le> n" "i + 1 = \<lfloor>n\<rfloor> + 1 - int k" by simp_all
  from Suc.IH [OF i(2)] i(1) show ?case by (simp add: amortLoop_step algebra_simps)
qed

text \<open>
  The schedule of a loan over a whole number \<open>k > 0\<close> of months
  (\<open>termYears * 12 = k\<close>), in exact arithmetic.
\<close>

lemma amortizationSchedule_whole_months:
  assumes "0 < k" and "tYears * 12 = real k"
  shows "\<exists>m rs. amortizationSchedule P rateAPR tYears = Some \<lparr>paymentMonthly = m, rows = rs\<rparr> \<and>
           length rs = k \<and>
           sum_list (map principal rs) = P \<and>
           sum_list (map interest rs) = real k * m - P \<and>
           (0 \<le> P \<longrightarrow>
              P * monthlyRate rateAPR \<le> m \<and>
              (\<forall>row \<in> set rs. 0 \<le> balance row \<and> balance row \<le> P) \<and>
              sorted_wrt (\<lambda>x y. y \<le> x) (map balance rs) \<and>
              balance (last rs) = 0)"
proof -
  define r where "r = monthlyRate rateAPR"
  define m where "m = P * r / (1 - (1 + r) powr (- real k))"
  have r: "0 < r" unfolding r_def by (rule monthlyRate_pos)
  from assms have t: "0 < tYears" by (simp add: zero_less_mult_iff)
  from assms(1) have n: "0 < real k" by simp
  have s: "amortizationSchedule P rateAPR tYears =
             Some \<lparr>paymentMonthly = m, rows = amortLoop r m (real k) 1 P\<rparr>"
    unfolding m_def r_def assms(2) [symmetric] using t by (rule amortizationSchedule_some)
  have start: "1 = \<lfloor>real k\<rfloor> + 1 - int k" by simp
  have inv: "annuity r m k P" unfolding m_def using r assms(1) by (rule payment_annuity)
  from r have "r \<noteq> 0" by simp
  from amortLoop_sum_principal [OF this start inv]
  have pr: "sum_list (map principal (amortLoop r m (real k) 1 P)) = P" .
  from amortLoop_sum_interest [OF start, of r m P] pr
  have it: "sum_list (map interest (amortLoop r m (real k) 1 P)) = real k * m - P" by simp
  have len: "length (amortLoop r m (real k) 1 P) = k" using start by (rule amortLoop_length)
  have "P * r \<le> m \<and>
        (\<forall>row \<in> set (amortLoop r m (real k) 1 P). 0 \<le> balance row \<and> balance row \<le> P) \<and>
        sorted_wrt (\<lambda>x y. y \<le> x) (map balance (amortLoop r m (real k) 1 P)) \<and>
        balance (last (amortLoop r m (real k) 1 P)) = 0"
    if P: "0 \<le> P"
  proof -
    have m: "0 \<le> m" unfolding m_def using r n P by (rule payment_nonneg)
    have ge: "P * r \<le> m" unfolding m_def using r n P by (rule payment_ge)
    from amortLoop_balances [OF r m start inv] assms(1) ge show ?thesis by simp
  qed
  with s len pr it show ?thesis unfolding r_def by blast
qed

subsection \<open>A term that is not a whole number of months\<close>

lemma four_powr: "(4 :: real) powr (- (3 / 2)) = 1 / 8"
proof -
  have "(4 :: real) = 2 powr 2" by simp
  then have "(4 :: real) powr (- (3 / 2)) = (2 powr 2) powr (- (3 / 2))" by simp
  also have "\<dots> = 2 powr (- 3)" by (simp only: powr_powr) simp
  also have "\<dots> = 1 / 8" by (simp add: powr_neg_numeral)
  finally show ?thesis .
qed

text \<open>
  A loan of \<open>7\<close> at the monthly rate \<open>3\<close> (\<open>rateAPR = 36\<close>) over an eighth of a year:
  \<open>n = 1.5\<close>, the payment \<open>21 / (1 - 4\<^sup>-\<^sup>1\<^sup>.\<^sup>5) = 24\<close> is the one of \<open>1.5\<close> periods, and the
  loop pushes one row. Every operation is exact in binary floating point too.
\<close>

lemma eighth_year_schedule:
  "amortizationSchedule 7 36 (1 / 8) =
     Some \<lparr>paymentMonthly = 24,
            rows = [\<lparr>month = 1, payment = 24, interest = 21, principal = 3, balance = 4\<rparr>]\<rparr>"
proof -
  have n: "(1 / 8 :: real) * 12 = 3 / 2" by simp
  have r: "monthlyRate 36 = 3" by (simp add: monthlyRate_def Let_def)
  have q: "(1 + 3 :: real) = 4" by simp
  show ?thesis
    unfolding amortizationSchedule_def Let_def n r q four_powr
    by (simp add: jsDiv_def amortLoop.simps Let_def)
qed

text \<open>
  Claim C1, as the code has it. The claim as stated fails where \<open>12 * termYears\<close> is not
  a whole number: the payment is sized for \<open>n = 12 * termYears\<close> periods and the loop
  pushes \<open>floor(n)\<close> rows. For \<open>P = 7\<close>, \<open>rateAPR = 36\<close> and \<open>termYears = 1/8\<close> the one
  row has the principal \<open>3\<close>, not \<open>7\<close>.
\<close>

theorem amortizationSchedule_principal_sum_counterexample:
  "(0 :: real) < 7 \<and> (0 :: real) < 36 \<and> (0 :: real) < 1 / 8 \<and>
   amortizationSchedule 7 36 (1 / 8) =
     Some \<lparr>paymentMonthly = 24,
            rows = [\<lparr>month = 1, payment = 24, interest = 21, principal = 3, balance = 4\<rparr>]\<rparr> \<and>
   sum_list (map principal
     [\<lparr>month = 1, payment = 24, interest = 21, principal = 3, balance = 4\<rparr>]) \<noteq> 7"
  using eighth_year_schedule by simp

text \<open>
  Claim C1, amended. For every loan principal \<open>P\<close> (so for every positive one), every
  annual rate (so for every positive one; a non-positive rate is clamped) and every term
  \<open>termYears\<close> for which \<open>12 * termYears\<close> is a whole number \<open>k > 0\<close> of months,
  \<open>amortizationSchedule\<close> returns a schedule of \<open>k\<close> rows whose \<open>principal\<close> fields sum
  to \<open>P\<close> exactly, in exact arithmetic.
\<close>

theorem amortizationSchedule_principal_sum:
  assumes "0 < k" and "tYears * 12 = real k"
  shows "\<exists>s. amortizationSchedule P rateAPR tYears = Some s \<and>
             length (rows s) = k \<and>
             sum_list (map principal (rows s)) = P"
proof -
  from amortizationSchedule_whole_months [OF assms, of P rateAPR] obtain m rs where
    "amortizationSchedule P rateAPR tYears = Some \<lparr>paymentMonthly = m, rows = rs\<rparr>"
    "length rs = k" "sum_list (map principal rs) = P"
    by blast
  then show ?thesis by simp
qed

theorem amortizationSchedule_principal_sum_witness:
  "(0 :: nat) < 12 \<and> (1 :: real) * 12 = real 12 \<and>
   (\<exists>s. amortizationSchedule 4095 12 1 = Some s \<and> length (rows s) = 12 \<and>
        sum_list (map principal (rows s)) = 4095) \<and>
   (0 :: nat) < 6 \<and> (1 / 2 :: real) * 12 = real 6 \<and>
   (\<exists>s. amortizationSchedule 240000 (65 / 1000) (1 / 2) = Some s \<and> length (rows s) = 6 \<and>
        sum_list (map principal (rows s)) = 240000)"
proof -
  have h1: "(0 :: nat) < 12" and h2: "(1 :: real) * 12 = real 12" by simp_all
  have h3: "(0 :: nat) < 6" and h4: "(1 / 2 :: real) * 12 = real 6" by simp_all
  from amortizationSchedule_principal_sum [OF h1 h2, of 4095 12]
       amortizationSchedule_principal_sum [OF h3 h4, of 240000 "65 / 1000"] h1 h2 h3 h4
  show ?thesis by blast
qed




subsection \<open>Non-positive rates\<close>



subsection \<open>Rounding\<close>

lemma powr_of_int_powi:
  fixes x :: real
  assumes "0 < x"
  shows "x powr of_int e = x powi e"
  using assms by (simp add: powr_real_of_int power_int_def power_inverse)

lemma floor_log2_binade:
  fixes a :: real
  assumes "2 powi e \<le> a" "a < 2 powi (e + 1)"
  shows "\<lfloor>log 2 a\<rfloor> = e"
proof -
  have "(0 :: real) < 2 powi e" by simp
  with assms(1) have a: "0 < a" by linarith
  have "2 powr (of_int e) \<le> a \<and> a < 2 powr (of_int e + 1)"
    using assms powr_of_int_powi [of 2 e] powr_of_int_powi [of 2 "e + 1"] by simp
  with floor_log_eq_powr_iff [OF a, of 2 e] show ?thesis by simp
qed

lemma round64_binade:
  assumes "- 1022 \<le> e" "(2 :: real) powi e \<le> \<bar>x\<bar>" "\<bar>x\<bar> < 2 powi (e + 1)"
  shows "round64 x =
           (if \<bar>of_int (roundEven (x / 2 powi (e - 52))) * (2 :: real) powi (e - 52)\<bar>
                < 2 powi 1024
            then Some (of_int (roundEven (x / 2 powi (e - 52))) * 2 powi (e - 52)) else None)"
proof -
  have "(0 :: real) < 2 powi e" by simp
  with assms(2) have "0 < \<bar>x\<bar>" by linarith
  then have "x \<noteq> 0" by simp
  moreover from assms(2,3) have "\<lfloor>log 2 \<bar>x\<bar>\<rfloor> = e" by (rule floor_log2_binade)
  moreover from assms(1) have "max e (- 1022) = e" by simp
  ultimately show ?thesis by (simp add: round64_def Let_def)
qed

lemma round64_60: "round64 60 = Some 60"
  by (subst round64_binade [of 5]) (simp_all add: roundEven_def Let_def power_int_minus)

lemma round64_1: "round64 1 = Some 1"
  by (subst round64_binade [of 0]) (simp_all add: roundEven_def Let_def power_int_minus)

lemma round64_2: "round64 2 = Some 2"
  by (subst round64_binade [of 1]) (simp_all add: roundEven_def Let_def power_int_minus)

lemma round64_1000: "round64 1000 = Some 1000"
  by (subst round64_binade [of 9]) (simp_all add: roundEven_def Let_def power_int_minus)

lemma round64_pow: "round64 (1 / 2 ^ 60) = Some (1 / 2 ^ 60)"
  by (subst round64_binade [of "- 60"]) (simp_all add: roundEven_def Let_def power_int_minus)

lemma round64_cancel: "round64 (1 - 1 / 2 ^ 60) = Some 1"
  by (subst round64_binade [of "- 1"]) (simp_all add: roundEven_def Let_def power_int_minus)


lemma round64_0: "round64 0 = Some 0"
  by (simp add: round64_def)

lemma amortLoop64_stuck:
  "i = 60 + 1 - int k \<Longrightarrow>
   \<exists>rs. amortLoop64 1 1000 60 i 1000 = Some rs \<and> length rs = k \<and>
        (\<forall>row \<in> set rs. payment row = 1000 \<and> interest row = 1000 \<and>
                          principal row = 0 \<and> balance row = 1000)"
proof (induction k arbitrary: i)
  case 0
  then show ?case by (subst amortLoop64.simps) simp
next
  case (Suc k)
  then have i: "i \<le> 60" and next_i: "i + 1 = 60 + 1 - int k" by simp_all
  from Suc.IH [OF next_i] obtain rs where
    rs: "amortLoop64 1 1000 60 (i + 1) 1000 = Some rs" "length rs = k"
        "\<forall>row \<in> set rs. payment row = 1000 \<and> interest row = 1000 \<and>
                          principal row = 0 \<and> balance row = 1000"
    by blast
  from i rs(1) have "amortLoop64 1 1000 60 i 1000 =
      Some (\<lparr>month = i, payment = 1000, interest = 1000, principal = 0, balance = 1000\<rparr> # rs)"
    by (subst amortLoop64.simps) (simp add: round64_1000 round64_0)
  with rs(2,3) show ?case by simp
qed

lemma sum_list_all_zero:
  fixes f :: "'a \<Rightarrow> real"
  shows "\<forall>x \<in> set xs. f x = 0 \<Longrightarrow> sum_list (map f xs) = 0"
  by (induction xs) simp_all

text \<open>
  Whole months in binary floating point. For a loan of \<open>1000\<close> at \<open>rateAPR = 12\<close> over
  \<open>5\<close> years the monthly rate is \<open>1\<close> and the denominator \<open>1 - 2\<^sup>-\<^sup>6\<^sup>0\<close> rounds to \<open>1\<close>:
  the payment is the loan, and in each of the \<open>60\<close> rows the interest is the whole
  payment, the principal is \<open>0\<close> and the balance stays \<open>1000\<close>. The statements on whole
  months above are statements of exact arithmetic: rounding does not keep them within
  a tolerance.
\<close>

lemma amortizationSchedule64_cancellation:
  "\<exists>rs. amortizationSchedule64 1000 12 5 = Some \<lparr>paymentMonthly = 1000, rows = rs\<rparr> \<and>
        length rs = 60 \<and>
        (\<forall>row \<in> set rs. principal row = 0 \<and> balance row = 1000) \<and>
        sum_list (map principal rs) = 0 \<and>
        balance (last rs) = 1000"
proof -
  have start: "(1 :: int) = 60 + 1 - int 60" by simp
  from amortLoop64_stuck [OF start] obtain rs where
    rs: "amortLoop64 1 1000 60 1 1000 = Some rs" "length rs = 60"
        "\<forall>row \<in> set rs. payment row = 1000 \<and> interest row = 1000 \<and>
                          principal row = 0 \<and> balance row = 1000"
    by blast
  from rs(3) have "sum_list (map principal rs) = 0" by (intro sum_list_all_zero) simp
  moreover have p: "(2 :: real) powr (- 60) = 1 / 2 ^ 60" by (simp add: powr_neg_numeral)
  have "amortizationSchedule64 1000 12 5 = Some \<lparr>paymentMonthly = 1000, rows = rs\<rparr>"
    unfolding amortizationSchedule64_def
    by (simp add: round64_60 round64_1 round64_2 p round64_pow
        round64_cancel round64_1000 jsDiv_def rs(1) del: power_numeral)
  moreover from rs(2) have "rs \<noteq> []" by auto
  then have "last rs \<in> set rs" by simp
  with rs(3) have "balance (last rs) = 1000" by blast
  ultimately show ?thesis using rs(2,3) by blast
qed

section \<open>The financial summarizer\<close>

text \<open>
  Claim C6. For every schedule \<open>rows\<close>, \<open>summarizeFinancials(rows, 0)\<close> returns zero
  principal paid, zero interest paid and, as balance, the first row's balance, or \<open>0\<close>
  when \<open>rows\<close> is empty; and so does \<open>summarizeFinancials(rows, years)\<close> for every
  \<open>years\<close> whose window \<open>min(rows.length, years * 12)\<close> is zero months.
\<close>

theorem summarizeFinancials_zero_window:
  "summarizeFinancials rs 0 =
     \<lparr>principalPaid = 0, interestPaid = 0,
      endBalance = (case rs of [] \<Rightarrow> 0 | r # _ \<Rightarrow> balance r)\<rparr> \<and>
   (min (int (length rs)) (years * 12) = 0 \<longrightarrow>
      summarizeFinancials rs years =
        \<lparr>principalPaid = 0, interestPaid = 0,
         endBalance = (case rs of [] \<Rightarrow> 0 | r # _ \<Rightarrow> balance r)\<rparr>)"
  by (cases rs) (simp_all add: summarizeFinancials_def)

theorem summarizeFinancials_zero_window_witness:
  "summarizeFinancials [\<lparr>month = 1, payment = 10, interest = 4, principal = 6, balance = 94\<rparr>] 0 =
     \<lparr>principalPaid = 0, interestPaid = 0, endBalance = 94\<rparr> \<and>
   min (int (length ([] :: AmortizationRow list))) (5 * 12) = 0 \<and>
   summarizeFinancials [] 5 = \<lparr>principalPaid = 0, interestPaid = 0, endBalance = 0\<rparr>"
  using summarizeFinancials_zero_window
          [of "[\<lparr>month = 1, payment = 10, interest = 4, principal = 6, balance = 94\<rparr>]" 0]
        summarizeFinancials_zero_window [of "[]" 5]
  by simp

section \<open>The inflation adjuster\<close>

text \<open>
  Claim C7. For every \<open>x\<close> and non-zero index values: \<open>toReal(x, base, base) = x\<close>, and
  \<open>toReal(toReal(x, a, b), b, c) = toReal(x, a, c)\<close>, exactly, in exact arithmetic.
\<close>

theorem toReal_identity_composition:
  "(base \<noteq> 0 \<longrightarrow> toReal x base base = Some x) \<and>
   (a \<noteq> 0 \<and> b \<noteq> 0 \<and> c \<noteq> 0 \<longrightarrow>
      (\<exists>y. toReal x a b = Some y \<and> toReal y b c = toReal x a c \<and>
           toReal x a c = Some (x * (a / c))))"
  by (simp add: toReal_def jsDiv_def)

theorem toReal_identity_composition_witness:
  "toReal 100 3 3 = Some 100 \<and>
   (\<exists>y. toReal 100 2 4 = Some y \<and> toReal y 4 5 = toReal 100 2 5 \<and>
        toReal 100 2 5 = Some (100 * (2 / 5)))"
  using toReal_identity_composition [of 3 100 2 4 5] by simp

section \<open>The return solver\<close>

lemma bisectLoop_rate:
  "bisectLoop cashflows tol maxIter i low high fLow fHigh = Some (Rate x) \<Longrightarrow>
   \<exists>v. npv x cashflows = Some v \<and> \<bar>v\<bar> < tol"
proof (induction cashflows tol maxIter i low high fLow fHigh rule: bisectLoop.induct)
  case (1 cashflows tol maxIter i low high fLow fHigh)
  show ?case
  proof (cases "i < maxIter")
    case False
    with "1.prems" show ?thesis by (simp add: bisectLoop.simps)
  next
    case True
    define mid where "mid = (low + high) / 2"
    show ?thesis
    proof (cases "npv mid cashflows")
      case None
      with True "1.prems" show ?thesis by (simp add: bisectLoop.simps mid_def)
    next
      case (Some fMid)
      show ?thesis
      proof (cases "\<bar>fMid\<bar> < tol")
        case hit: True
        with True Some "1.prems" have "x = mid"
          by (simp add: bisectLoop.simps [of cashflows tol maxIter i] mid_def Let_def)
        with Some hit show ?thesis by simp
      next
        case miss: False
        show ?thesis
        proof (cases "fLow * fMid < 0")
          case left: True
          with True Some miss "1.prems"
          have "bisectLoop cashflows tol maxIter (i + 1) low mid fLow fMid = Some (Rate x)"
            by (simp add: bisectLoop.simps [of cashflows tol maxIter i] mid_def Let_def)
          with "1.IH"(1) [OF True mid_def Some miss left] show ?thesis by simp
        next
          case right: False
          with True Some miss "1.prems"
          have "bisectLoop cashflows tol maxIter (i + 1) mid high fMid fHigh = Some (Rate x)"
            by (simp add: bisectLoop.simps [of cashflows tol maxIter i] mid_def Let_def)
          with "1.IH"(2) [OF True mid_def Some miss right] show ?thesis by simp
        qed
      qed
    qed
  qed
qed

text \<open>
  Claim C4. For every cash-flow sequence and bracket \<open>[low, high]\<close>: if the net present
  values at \<open>low\<close> and at \<open>high\<close> have the same sign (their product is positive),
  \<open>irrBisection\<close> returns \<open>null\<close>; and whenever \<open>irrBisection\<close> returns a rate, the net
  present value at that rate is below the tolerance in absolute value. (The net present
  values are finite numbers here: a rate of \<open>-1\<close> divides by zero.)
\<close>

theorem irrBisection_no_sign_change_and_tolerance:
  "(\<forall>fLow fHigh. npv low cashflows = Some fLow \<and> npv high cashflows = Some fHigh \<and>
       fLow * fHigh > 0 \<longrightarrow> irrBisection cashflows low high tol maxIter = Some NoSolution) \<and>
   (\<forall>x. irrBisection cashflows low high tol maxIter = Some (Rate x) \<longrightarrow>
       (\<exists>v. npv x cashflows = Some v \<and> \<bar>v\<bar> < tol))"
proof (intro conjI allI impI)
  fix fLow fHigh
  assume "npv low cashflows = Some fLow \<and> npv high cashflows = Some fHigh \<and> fLow * fHigh > 0"
  then show "irrBisection cashflows low high tol maxIter = Some NoSolution"
    by (simp add: irrBisection_def)
next
  fix x
  assume "irrBisection cashflows low high tol maxIter = Some (Rate x)"
  then obtain fLow fHigh where
    "bisectLoop cashflows tol maxIter 0 low high fLow fHigh = Some (Rate x)"
    by (auto simp: irrBisection_def split: option.splits if_splits)
  then show "\<exists>v. npv x cashflows = Some v \<and> \<bar>v\<bar> < tol"
    by (rule bisectLoop_rate)
qed

theorem irrBisection_no_sign_change_and_tolerance_witness:
  "npv 0 [1, 1] = Some 2 \<and> npv 1 [1, 1] = Some (3 / 2) \<and> (2 :: real) * (3 / 2) > 0 \<and>
   irrBisection [1, 1] 0 1 (1 / 100000000) 10000 = Some NoSolution \<and>
   irrBisection [- 1, 2] (- 9 / 10) 5 (1 / 10) 10000 = Some (Rate (151 / 160)) \<and>
   (\<exists>v. npv (151 / 160) [- 1, 2] = Some v \<and> \<bar>v\<bar> < 1 / 10)"
proof -
  have h: "npv 0 [1, 1] = Some 2 \<and> npv 1 [1, 1] = Some (3 / 2) \<and> (2 :: real) * (3 / 2) > 0"
    by (simp add: npv_def jsDiv_def)
  have e: "irrBisection [- 1, 2] (- 9 / 10) 5 (1 / 10) 10000 = Some (Rate (151 / 160))"
    by (simp add: irrBisection_def npv_def jsDiv_def bisectLoop.simps Let_def)
  from irrBisection_no_sign_change_and_tolerance [of 0 "[1, 1]" 1 "1 / 100000000" 10000] h
  have "irrBisection [1, 1] 0 1 (1 / 100000000) 10000 = Some NoSolution" by blast
  moreover
  from irrBisection_no_sign_change_and_tolerance
         [of "- 9 / 10" "[- 1, 2]" 5 "1 / 10" 10000] e
  have "\<exists>v. npv (151 / 160) [- 1, 2] = Some v \<and> \<bar>v\<bar> < 1 / 10" by blast
  ultimately show ?thesis using h e by blast
qed

section \<open>The benchmark projector\<close>

subsection \<open>The real equity curve\<close>

lemma curveLoop_recurrence:
  assumes "length dividends = length returns" "length cpiGrowth = length returns"
    and "\<forall>t < length returns. 1 + cpiGrowth ! t \<noteq> 0"
  shows "k = length returns - t \<Longrightarrow> t \<le> length returns \<Longrightarrow> length curve = t + 1 \<Longrightarrow>
         \<exists>res. curveLoop returns dividends cpiGrowth feeMo t curve = Some res \<and>
               length res = length returns + 1 \<and>
               take (t + 1) res = curve \<and>
               (\<forall>j. t \<le> j \<and> j < length returns \<longrightarrow>
                  res ! (j + 1) =
                    res ! j * ((1 + (returns ! j + dividends ! j)) * (1 - feeMo) / (1 + cpiGrowth ! j)))"
proof (induction k arbitrary: t curve)
  case 0
  then have "t = length returns" by simp
  with 0 show ?case by (subst curveLoop.simps) simp
next
  case (Suc k)
  then have t: "t < length returns" and k: "k = length returns - (t + 1)"
    and t': "t + 1 \<le> length returns" by simp_all
  define g where
    "g = (1 + (returns ! t + dividends ! t)) * (1 - feeMo) / (1 + cpiGrowth ! t)"
  define curve' where "curve' = curve @ [last curve * g]"
  from t assms have nz: "1 + cpiGrowth ! t \<noteq> 0" by simp
  from t assms nz
  have step: "curveLoop returns dividends cpiGrowth feeMo t curve =
              curveLoop returns dividends cpiGrowth feeMo (t + 1) curve'"
    by (subst curveLoop.simps) (simp add: jsNth_def jsDiv_def Let_def g_def curve'_def)
  from Suc.prems(3) have len': "length curve' = t + 1 + 1" by (simp add: curve'_def)
  from Suc.IH [OF k t' len'] obtain res where
    res: "curveLoop returns dividends cpiGrowth feeMo (t + 1) curve' = Some res"
    and len: "length res = length returns + 1"
    and pre: "take (t + 1 + 1) res = curve'"
    and rec: "\<forall>j. t + 1 \<le> j \<and> j < length returns \<longrightarrow>
                res ! (j + 1) =
                  res ! j * ((1 + (returns ! j + dividends ! j)) * (1 - feeMo) / (1 + cpiGrowth ! j))"
    by blast
  from Suc.prems(3) have ne: "curve \<noteq> []" by auto
  have "take (t + 1) res = take (t + 1) (take (t + 1 + 1) res)" by simp
  also have "\<dots> = curve" unfolding pre curve'_def using Suc.prems(3) by simp
  finally have pre': "take (t + 1) res = curve" .
  have "res ! (t + 1) = take (t + 1 + 1) res ! (t + 1)" by simp
  also have "\<dots> = last curve * g"
    unfolding pre curve'_def using Suc.prems(3) by (simp add: nth_append)
  finally have r1: "res ! (t + 1) = last curve * g" .
  have "res ! t = take (t + 1) res ! t" by simp
  also have "\<dots> = last curve"
    unfolding pre' using Suc.prems(3) ne by (simp add: last_conv_nth)
  finally have r0: "res ! t = last curve" .
  have "\<forall>j. t \<le> j \<and> j < length returns \<longrightarrow>
          res ! (j + 1) =
            res ! j * ((1 + (returns ! j + dividends ! j)) * (1 - feeMo) / (1 + cpiGrowth ! j))"
  proof (intro allI impI)
    fix j assume j: "t \<le> j \<and> j < length returns"
    show "res ! (j + 1) =
            res ! j * ((1 + (returns ! j + dividends ! j)) * (1 - feeMo) / (1 + cpiGrowth ! j))"
    proof (cases "j = t")
      case True
      with r0 r1 show ?thesis by (simp add: g_def)
    next
      case False
      with j have "t + 1 \<le> j \<and> j < length returns" by simp
      with rec show ?thesis by blast
    qed
  qed
  with step res len pre' show ?case by simp
qed

lemma curveLoop_none:
  assumes "length dividends = length returns" "length cpiGrowth = length returns"
  shows "k = length returns - t \<Longrightarrow> t \<le> j \<Longrightarrow> j < length returns \<Longrightarrow>
         1 + cpiGrowth ! j = 0 \<Longrightarrow>
         curveLoop returns dividends cpiGrowth feeMo t curve = None"
proof (induction k arbitrary: t curve)
  case 0
  then show ?case by simp
next
  case (Suc k)
  then have t: "t < length returns" and k: "k = length returns - (t + 1)" by simp_all
  show ?case
  proof (cases "1 + cpiGrowth ! t = 0")
    case True
    with t assms show ?thesis
      by (subst curveLoop.simps) (simp add: jsNth_def jsDiv_def Let_def)
  next
    case False
    with Suc.prems have j: "t + 1 \<le> j" by (cases "j = t") auto
    from False t assms
    have "curveLoop returns dividends cpiGrowth feeMo t curve =
          curveLoop returns dividends cpiGrowth feeMo (t + 1)
            (curve @ [last curve *
               ((1 + (returns ! t + dividends ! t)) * (1 - feeMo) / (1 + cpiGrowth ! t))])"
      by (subst curveLoop.simps) (simp add: jsNth_def jsDiv_def Let_def)
    with Suc.IH [OF k j Suc.prems(3,4)] show ?thesis by simp
  qed
qed

lemma realEquityCurve_recurrence:
  assumes "length dividends = length returns" "length cpiGrowth = length returns"
    and "\<forall>t < length returns. 1 + cpiGrowth ! t \<noteq> 0"
  shows "\<exists>curve. realEquityCurve returns dividends cpiGrowth feeBpsPerYear = Some curve \<and>
           length curve = length returns + 1 \<and>
           curve ! 0 = 1 \<and>
           (\<forall>t < length returns.
              curve ! (t + 1) =
                curve ! t * ((1 + (returns ! t + dividends ! t))
                               * (1 - (feeBpsPerYear / 10000) / 12)
                             / (1 + cpiGrowth ! t)))"
proof -
  from curveLoop_recurrence [OF assms refl, of 0 "[1]" "(feeBpsPerYear / 10000) / 12"]
  obtain res where
    res: "curveLoop returns dividends cpiGrowth ((feeBpsPerYear / 10000) / 12) 0 [1] = Some res"
    and len: "length res = length returns + 1"
    and pre: "take (0 + 1) res = [1]"
    and rec: "\<forall>j. 0 \<le> j \<and> j < length returns \<longrightarrow>
                res ! (j + 1) =
                  res ! j * ((1 + (returns ! j + dividends ! j)) * (1 - (feeBpsPerYear / 10000) / 12)
                             / (1 + cpiGrowth ! j))"
    by auto
  have "res ! 0 = take (0 + 1) res ! 0" by simp
  also have "\<dots> = 1" unfolding pre by simp
  finally have "res ! 0 = 1" .
  with res len rec show ?thesis
    by (simp add: realEquityCurve_def Let_def)
qed

text \<open>
  Claim C5. For every returns, dividends and CPI-growth series of equal length and every
  \<open>feeBpsPerYear\<close>, \<open>realEquityCurve\<close> returns a curve of one more element whose first
  element is \<open>1\<close> and where each next element is the previous one times the period's
  growth factor
  \<open>(1 + returns[t] + dividends[t]) * (1 - (feeBpsPerYear / 10000) / 12) / (1 + cpiGrowth[t])\<close>.
  The factor is a quotient by \<open>1 + cpiGrowth[t]\<close>: where one of these is \<open>0\<close> the curve
  has a non-finite element (\<open>None\<close>), and otherwise it is the curve of the claim.
\<close>

theorem realEquityCurve_growth_factor:
  assumes "length dividends = length returns" and "length cpiGrowth = length returns"
  shows "((\<forall>t < length returns. 1 + cpiGrowth ! t \<noteq> 0) \<longrightarrow>
           (\<exists>curve. realEquityCurve returns dividends cpiGrowth feeBpsPerYear = Some curve \<and>
              length curve = length returns + 1 \<and>
              curve ! 0 = 1 \<and>
              (\<forall>t < length returns.
                 curve ! (t + 1) =
                   curve ! t * ((1 + returns ! t + dividends ! t)
                                  * (1 - (feeBpsPerYear / 10000) / 12)
                                / (1 + cpiGrowth ! t))))) \<and>
         ((\<exists>t < length returns. 1 + cpiGrowth ! t = 0) \<longrightarrow>
           realEquityCurve returns dividends cpiGrowth feeBpsPerYear = None)"
proof (intro conjI impI)
  assume "\<forall>t < length returns. 1 + cpiGrowth ! t \<noteq> 0"
  with assms obtain curve where
    c: "realEquityCurve returns dividends cpiGrowth feeBpsPerYear = Some curve"
       "length curve = length returns + 1" "curve ! 0 = 1"
    and rec: "\<forall>t < length returns.
                curve ! (t + 1) =
                  curve ! t * ((1 + (returns ! t + dividends ! t))
                                 * (1 - (feeBpsPerYear / 10000) / 12)
                               / (1 + cpiGrowth ! t))"
    using realEquityCurve_recurrence [of dividends returns cpiGrowth feeBpsPerYear] by blast
  have "\<forall>t < length returns.
          curve ! (t + 1) =
            curve ! t * ((1 + returns ! t + dividends ! t)
                           * (1 - (feeBpsPerYear / 10000) / 12)
                         / (1 + cpiGrowth ! t))"
  proof (intro allI impI)
    fix t assume "t < length returns"
    with rec have "curve ! (t + 1) =
        curve ! t * ((1 + (returns ! t + dividends ! t))
                       * (1 - (feeBpsPerYear / 10000) / 12) / (1 + cpiGrowth ! t))"
      by blast
    moreover have "1 + (returns ! t + dividends ! t) = 1 + returns ! t + dividends ! t"
      by simp
    ultimately show "curve ! (t + 1) =
        curve ! t * ((1 + returns ! t + dividends ! t)
                       * (1 - (feeBpsPerYear / 10000) / 12) / (1 + cpiGrowth ! t))"
      by simp
  qed
  with c show "\<exists>curve. realEquityCurve returns dividends cpiGrowth feeBpsPerYear = Some curve \<and>
      length curve = length returns + 1 \<and> curve ! 0 = 1 \<and>
      (\<forall>t < length returns.
         curve ! (t + 1) =
           curve ! t * ((1 + returns ! t + dividends ! t)
                          * (1 - (feeBpsPerYear / 10000) / 12)
                        / (1 + cpiGrowth ! t)))"
    by blast
next
  assume "\<exists>t < length returns. 1 + cpiGrowth ! t = 0"
  then obtain j where j: "j < length returns" "1 + cpiGrowth ! j = 0" by blast
  have "0 \<le> j" by simp
  from curveLoop_none [OF assms refl this j]
  show "realEquityCurve returns dividends cpiGrowth feeBpsPerYear = None"
    by (simp add: realEquityCurve_def Let_def)
qed

theorem realEquityCurve_growth_factor_witness:
  "length [0, 1 / 100 :: real] = length [1 / 100, 2 / 100 :: real] \<and>
   length [1 / 100, 0 :: real] = length [1 / 100, 2 / 100 :: real] \<and>
   (\<exists>curve. realEquityCurve [1 / 100, 2 / 100] [0, 1 / 100] [1 / 100, 0] 1200 = Some curve \<and>
      length curve = length [1 / 100, 2 / 100 :: real] + 1 \<and>
      curve ! 0 = 1 \<and>
      (\<forall>t < length [1 / 100, 2 / 100 :: real].
         curve ! (t + 1) =
           curve ! t * ((1 + [1 / 100, 2 / 100] ! t + [0, 1 / 100] ! t) * (1 - (1200 / 10000) / 12)
                        / (1 + [1 / 100, 0] ! t)))) \<and>
   realEquityCurve [1 / 100, 2 / 100] [0, 1 / 100] [1 / 100, - 1] 1200 = None"
proof -
  have h1: "length [0, 1 / 100 :: real] = length [1 / 100, 2 / 100 :: real]" by simp
  have h2: "length [1 / 100, 0 :: real] = length [1 / 100, 2 / 100 :: real]" by simp
  have h2': "length [1 / 100, - 1 :: real] = length [1 / 100, 2 / 100 :: real]" by simp
  have h3: "\<forall>t < length [1 / 100, 2 / 100 :: real]. 1 + [1 / 100, 0 :: real] ! t \<noteq> 0"
    by (simp add: All_less_Suc)
  have h4: "\<exists>t < length [1 / 100, 2 / 100 :: real]. 1 + [1 / 100, - 1 :: real] ! t = 0"
    by (rule exI [of _ 1]) simp
  from realEquityCurve_growth_factor [OF h1 h2, of 1200] h3
       realEquityCurve_growth_factor [OF h1 h2', of 1200] h4 h1 h2
  show ?thesis by blast
qed

subsection \<open>Terminal wealth\<close>

lemma wealthLoop_sum:
  "k = length cfs - t \<Longrightarrow>
   wealthLoop curve cfs T t w =
     (if \<exists>j. t \<le> j \<and> j < min (length cfs) (length curve) \<and> curve ! j = 0 then None
      else Some (w + (\<Sum>j = t..<min (length cfs) (length curve). cfs ! j * (curve ! T / curve ! j))))"
proof (induction k arbitrary: t w)
  case 0
  then have "\<not> t < length cfs" by simp
  then show ?case by (subst wealthLoop.simps) simp
next
  case (Suc k)
  then have t: "t < length cfs" and k: "k = length cfs - (t + 1)" by simp_all
  show ?case
  proof (cases "t \<ge> length curve")
    case True
    with t have "wealthLoop curve cfs T t w = wealthLoop curve cfs T (t + 1) w"
      by (subst wealthLoop.simps) simp
    with Suc.IH [OF k, of w] True show ?thesis by simp
  next
    case False
    with t have lt: "t < min (length cfs) (length curve)" by simp
    show ?thesis
    proof (cases "curve ! t = 0")
      case True
      with t False have "wealthLoop curve cfs T t w = None"
        by (subst wealthLoop.simps) (simp add: jsDiv_def)
      moreover from True lt
      have "\<exists>j. t \<le> j \<and> j < min (length cfs) (length curve) \<and> curve ! j = 0" by blast
      ultimately show ?thesis by simp
    next
      case nz: False
      with t False
      have step: "wealthLoop curve cfs T t w =
                  wealthLoop curve cfs T (t + 1) (w + cfs ! t * (curve ! T / curve ! t))"
        by (subst wealthLoop.simps) (simp add: jsDiv_def)
      from nz
      have ex: "(\<exists>j. t \<le> j \<and> j < min (length cfs) (length curve) \<and> curve ! j = 0) \<longleftrightarrow>
                (\<exists>j. t + 1 \<le> j \<and> j < min (length cfs) (length curve) \<and> curve ! j = 0)"
        by (metis Suc_eq_plus1 Suc_leI le_neq_implies_less Suc_leD)
      from lt
      have sum: "(\<Sum>j = t..<min (length cfs) (length curve). cfs ! j * (curve ! T / curve ! j)) =
                 cfs ! t * (curve ! T / curve ! t) +
                 (\<Sum>j = t + 1..<min (length cfs) (length curve). cfs ! j * (curve ! T / curve ! j))"
        by (simp add: sum.atLeast_Suc_lessThan)
      show ?thesis
        unfolding step Suc.IH [OF k] by (simp only: ex sum add.assoc)
    qed
  qed
qed

lemma terminalWealthFromCashFlows_loop:
  assumes "curve \<noteq> []"
  shows "terminalWealthFromCashFlows curve cashFlowsReal =
           wealthLoop curve cashFlowsReal (length curve - 1) 0 0"
proof -
  have "nat (int (length curve) - 1) = length curve - 1" by arith
  with assms show ?thesis by (simp add: terminalWealthFromCashFlows_def Let_def)
qed

text \<open>
  Claim C10. \<open>terminalWealthFromCashFlows\<close> ignores every cash-flow entry whose index is
  at or past the curve's length: for every curve and every \<open>cashFlowsReal\<close> the result is
  the sum, over the indices \<open>t\<close> below both lengths only, of
  \<open>cashFlowsReal[t] * curve[last] / curve[t]\<close>; entries past the curve's horizon add
  nothing and raise no error. (The result is a finite number exactly when no \<open>curve[t]\<close>
  that is read as a divisor is \<open>0\<close>.)
\<close>

theorem terminalWealthFromCashFlows_ignores_past_horizon:
  "terminalWealthFromCashFlows curve cashFlowsReal =
     (if \<exists>t. t < min (length cashFlowsReal) (length curve) \<and> curve ! t = 0 then None
      else Some (\<Sum>t < min (length cashFlowsReal) (length curve).
                   cashFlowsReal ! t * (last curve / curve ! t)))"
proof (cases "curve = []")
  case True
  then show ?thesis by (simp add: terminalWealthFromCashFlows_def)
next
  case False
  then have T: "curve ! (length curve - 1) = last curve" by (simp add: last_conv_nth)
  from False have "terminalWealthFromCashFlows curve cashFlowsReal =
      wealthLoop curve cashFlowsReal (length curve - 1) 0 0"
    by (rule terminalWealthFromCashFlows_loop)
  then show ?thesis
    unfolding wealthLoop_sum [OF refl] T by (auto simp: atLeast0LessThan)
qed

theorem terminalWealthFromCashFlows_ignores_past_horizon_witness:
  "terminalWealthFromCashFlows [1, 1 / 2] [1, 3, 4] = Some (7 / 2)"
proof -
  have nz: "\<not> (\<exists>t. t < min (length [1, 3, 4 :: real]) (length [1, 1 / 2 :: real]) \<and>
                    [1, 1 / 2 :: real] ! t = 0)"
  proof
    assume "\<exists>t. t < min (length [1, 3, 4 :: real]) (length [1, 1 / 2 :: real]) \<and>
                [1, 1 / 2 :: real] ! t = 0"
    then obtain t where t: "t < Suc (Suc 0)" "[1, 1 / 2 :: real] ! t = 0" by auto
    from t(1) consider "t = 0" | "t = 1" by linarith
    then show False using t(2) by cases simp_all
  qed
  have "min (length [1, 3, 4 :: real]) (length [1, 1 / 2 :: real]) = Suc (Suc 0)" by simp
  then have "(\<Sum>t < min (length [1, 3, 4 :: real]) (length [1, 1 / 2 :: real]).
               [1, 3, 4 :: real] ! t * (last [1, 1 / 2] / [1, 1 / 2] ! t)) = 7 / 2"
    by (simp add: lessThan_Suc)
  with terminalWealthFromCashFlows_ignores_past_horizon [of "[1, 1 / 2]" "[1, 3, 4]"] nz
  show ?thesis by (simp only: if_False)
qed

subsection \<open>No growth\<close>

lemma flat_curve:
  fixes curve :: "real list"
  assumes "curve ! 0 = 1" and "\<forall>t < n. curve ! (t + 1) = curve ! t"
  shows "t \<le> n \<Longrightarrow> curve ! t = 1"
proof (induction t)
  case 0
  from assms(1) show ?case .
next
  case (Suc t)
  then have "t < n" and "curve ! t = 1" by simp_all
  with assms(2) show ?case by simp
qed

text \<open>
  Claim C8, as the code has it. The claim as stated fails: the curve is a real
  (inflation-adjusted) curve, so with zero fee, zero returns and zero dividends it still
  falls by the factor \<open>1 / (1 + cpiGrowth[t])\<close> each period. With a CPI growth of \<open>1/4\<close> in
  the one period, a contribution of \<open>100\<close> at period \<open>0\<close> has terminal wealth \<open>80\<close>.
\<close>

theorem benchmark_inflation_counterexample:
  "realEquityCurve [0] [0] [1 / 4] 0 = Some [1, 4 / 5] \<and>
   terminalWealthFromCashFlows [1, 4 / 5] [100] = Some 80 \<and>
   (80 :: real) \<noteq> sum_list [100]"
  by (simp add: realEquityCurve_def curveLoop.simps terminalWealthFromCashFlows_def
      wealthLoop.simps jsNth_def jsDiv_def Let_def)

text \<open>
  Claim C8, amended. With \<open>feeBpsPerYear = 0\<close> and every per-period return, dividend and
  CPI growth equal to zero, the terminal wealth computed by
  \<open>terminalWealthFromCashFlows\<close> over the curve produced by \<open>realEquityCurve\<close> equals the
  sum of the contributions, for every contribution sequence whose length does not exceed
  the curve's length.
\<close>

theorem benchmark_no_growth:
  assumes "length dividends = length returns" "length cpiGrowth = length returns"
    and "\<forall>t < length returns. returns ! t = 0 \<and> dividends ! t = 0 \<and> cpiGrowth ! t = 0"
    and "length cashFlowsReal \<le> length returns + 1"
  shows "\<exists>curve. realEquityCurve returns dividends cpiGrowth 0 = Some curve \<and>
           length curve = length returns + 1 \<and>
           terminalWealthFromCashFlows curve cashFlowsReal = Some (sum_list cashFlowsReal)"
proof -
  from assms(3) have nz: "\<forall>t < length returns. 1 + cpiGrowth ! t \<noteq> 0" by simp
  from realEquityCurve_recurrence [OF assms(1,2) nz, of 0] obtain curve where
    c: "realEquityCurve returns dividends cpiGrowth 0 = Some curve"
    and len: "length curve = length returns + 1"
    and c0: "curve ! 0 = 1"
    and rec: "\<forall>t < length returns.
                curve ! (t + 1) =
                  curve ! t * ((1 + (returns ! t + dividends ! t)) * (1 - (0 / 10000) / 12)
                               / (1 + cpiGrowth ! t))"
    by blast
  from rec assms(3) have "\<forall>t < length returns. curve ! (t + 1) = curve ! t" by simp
  with c0 have one: "\<And>t. t \<le> length returns \<Longrightarrow> curve ! t = 1" by (rule flat_curve)
  from len have ne: "curve \<noteq> []" by auto
  from len one [of "length returns"] have T: "curve ! (length curve - 1) = 1" by simp
  from assms(4) len
  have m: "min (length cashFlowsReal) (length curve) = length cashFlowsReal" by simp
  have nozero: "\<not> (\<exists>j. 0 \<le> j \<and> j < length cashFlowsReal \<and> curve ! j = 0)"
  proof
    assume "\<exists>j. 0 \<le> j \<and> j < length cashFlowsReal \<and> curve ! j = 0"
    then obtain j where "j < length cashFlowsReal" "curve ! j = 0" by blast
    with assms(4) one [of j] show False by simp
  qed
  have "(\<Sum>j = 0..<length cashFlowsReal.
           cashFlowsReal ! j * (curve ! (length curve - 1) / curve ! j)) =
        (\<Sum>j = 0..<length cashFlowsReal. cashFlowsReal ! j)"
  proof (rule sum.cong [OF refl])
    fix j assume "j \<in> {0..<length cashFlowsReal}"
    with assms(4) have "j \<le> length returns" by simp
    with one [of j] T
    show "cashFlowsReal ! j * (curve ! (length curve - 1) / curve ! j) = cashFlowsReal ! j"
      by simp
  qed
  also have "\<dots> = sum_list cashFlowsReal" by (simp add: sum_list_sum_nth)
  finally have s: "(\<Sum>j = 0..<length cashFlowsReal.
           cashFlowsReal ! j * (curve ! (length curve - 1) / curve ! j)) = sum_list cashFlowsReal" .
  have "terminalWealthFromCashFlows curve cashFlowsReal =
          wealthLoop curve cashFlowsReal (length curve - 1) 0 0"
    using ne by (rule terminalWealthFromCashFlows_loop)
  also have "\<dots> = Some (sum_list cashFlowsReal)"
    unfolding wealthLoop_sum [OF refl] m s using nozero by simp
  finally show ?thesis using c len by blast
qed

theorem benchmark_no_growth_witness:
  "length [0, 0 :: real] = length [0, 0 :: real] \<and>
   length [100, 20, 30 :: real] \<le> length [0, 0 :: real] + 1 \<and>
   (\<exists>curve. realEquityCurve [0, 0] [0, 0] [0, 0] 0 = Some curve \<and>
      length curve = length [0, 0 :: real] + 1 \<and>
      terminalWealthFromCashFlows curve [100, 20, 30] = Some (sum_list [100, 20, 30]))"
proof -
  have h1: "length [0, 0 :: real] = length [0, 0 :: real]" by simp
  have h3: "\<forall>t < length [0, 0 :: real].
              [0, 0 :: real] ! t = 0 \<and> [0, 0 :: real] ! t = 0 \<and> [0, 0 :: real] ! t = 0"
    by (simp add: All_less_Suc)
  have h4: "length [100, 20, 30 :: real] \<le> length [0, 0 :: real] + 1" by simp
  from benchmark_no_growth [OF h1 h1 h3 h4] h1 h4
  show ?thesis by blast
qed

section \<open>The result pipeline\<close>

lemma sumLoop_drop:
  "k = length rs - nat i \<Longrightarrow> 0 \<le> i \<Longrightarrow>
   sumLoop rs (int (length rs)) i pp ip =
     (pp + sum_list (map principal (drop (nat i) rs)),
      ip + sum_list (map interest (drop (nat i) rs)))"
proof (induction k arbitrary: i pp ip)
  case 0
  then have "\<not> i < int (length rs)" by simp
  moreover from 0 have "drop (nat i) rs = []" by simp
  ultimately show ?case by (subst sumLoop.simps) simp
next
  case (Suc k)
  then have i: "i < int (length rs)" "nat i < length rs" and k: "k = length rs - nat (i + 1)"
    and i': "0 \<le> i + 1"
    by simp_all
  from Suc.prems(2) have n: "nat (i + 1) = Suc (nat i)" by simp
  from i(2) have d: "drop (nat i) rs = rs ! nat i # drop (Suc (nat i)) rs"
    by (simp add: Cons_nth_drop_Suc)
  from i(1) have "sumLoop rs (int (length rs)) i pp ip =
      sumLoop rs (int (length rs)) (i + 1) (pp + principal (rs ! nat i)) (ip + interest (rs ! nat i))"
    by (subst sumLoop.simps) simp
  then show ?case unfolding Suc.IH [OF k i'] n d by simp
qed

lemma summarizeFinancials_whole:
  assumes "rs \<noteq> []" and "int (length rs) \<le> years * 12"
  shows "summarizeFinancials rs years =
           \<lparr>principalPaid = sum_list (map principal rs),
            interestPaid = sum_list (map interest rs),
            endBalance = balance (last rs)\<rparr>"
proof -
  from assms have m: "min (int (length rs)) (years * 12) = int (length rs)" by simp
  have "nat (int (length rs) - 1) = length rs - 1" by arith
  with assms(1) have l: "rs ! nat (int (length rs) - 1) = last rs"
    by (simp add: last_conv_nth)
  have "sumLoop rs (int (length rs)) 0 0 0 =
          (sum_list (map principal rs), sum_list (map interest rs))"
    using sumLoop_drop [OF refl, of 0 rs 0 0] by simp
  with assms(1) l show ?thesis
    by (simp add: summarizeFinancials_def m Let_def)
qed

lemma ledger_eval:
  assumes "rs \<noteq> []"
    and "sum_list (map principal rs) = 360000"
    and "sum_list (map interest rs) = 12 * m - 360000"
    and "balance (last rs) = 0"
    and "length rs = 12"
  shows "ledgerLoop (mergedInputs (defaultDeal\<lparr>termYears := 1\<rparr>))
           \<lparr>paymentMonthly = m, rows = rs\<rparr> 360000 False 1 0 [] =
         \<lparr>year = 1, nominalCashFlow = 14604 - m * 12,
           cumulativeNominalCashFlow = 14604 - m * 12,
           ledgerInterestPaid = 12 * m - 360000, ledgerPrincipalPaid = 360000,
           loanBalance = 0, taxSavings = (96 * m - 2808000) / 25\<rparr> #
         map (\<lambda>y. \<lparr>year = y, nominalCashFlow = 14604 - m * 12,
           cumulativeNominalCashFlow = real_of_int y * (14604 - m * 12),
           ledgerInterestPaid = 12 * m - 360000, ledgerPrincipalPaid = 360000,
           loanBalance = 0, taxSavings = 2880\<rparr>) [2, 3, 4, 5, 6, 7, 8, 9, 10]"
  by (simp add: ledgerLoop.simps Let_def summarizeFinancials_whole assms mergedInputs_def
      defaultDeal_def annualCashFlow_def Deal.extend_def MergedInputs.fields_def
      MergedInputs.extend_def CashFlowConfig.fields_def)

lemma failing_ledger:
  "\<exists>m. 1950 \<le> m \<and>
     calculateResults_ledger (defaultDeal\<lparr>termYears := 1\<rparr>) =
         Some (\<lparr>year = 1, nominalCashFlow = 14604 - m * 12,
                 cumulativeNominalCashFlow = 14604 - m * 12,
                 ledgerInterestPaid = 12 * m - 360000, ledgerPrincipalPaid = 360000,
                 loanBalance = 0, taxSavings = (96 * m - 2808000) / 25\<rparr> #
               map (\<lambda>y. \<lparr>year = y, nominalCashFlow = 14604 - m * 12,
                 cumulativeNominalCashFlow = real_of_int y * (14604 - m * 12),
                 ledgerInterestPaid = 12 * m - 360000, ledgerPrincipalPaid = 360000,
                 loanBalance = 0, taxSavings = 2880\<rparr>) [2, 3, 4, 5, 6, 7, 8, 9, 10])"
proof -
  have k: "(0 :: nat) < 12" and t: "(1 :: real) * 12 = real 12" by simp_all
  from amortizationSchedule_whole_months [OF k t, of 360000 "65 / 1000"] obtain m rs where
    s: "amortizationSchedule 360000 (65 / 1000) 1 = Some \<lparr>paymentMonthly = m, rows = rs\<rparr>"
    and len: "length rs = 12"
    and pr: "sum_list (map principal rs) = 360000"
    and it: "sum_list (map interest rs) = real 12 * m - 360000"
    and final: "balance (last rs) = 0"
    and ge: "360000 * monthlyRate (65 / 1000) \<le> m"
    by auto
  from len have ne: "rs \<noteq> []" by auto
  from it have it': "sum_list (map interest rs) = 12 * m - 360000" by simp
  from ge have m: "1950 \<le> m" by (simp add: monthlyRate_def Let_def)
  have "calculateResults_ledger (defaultDeal\<lparr>termYears := 1\<rparr>) =
          Some (ledgerLoop (mergedInputs (defaultDeal\<lparr>termYears := 1\<rparr>))
            \<lparr>paymentMonthly = m, rows = rs\<rparr> 360000 False 1 0 [])"
    using s by (simp add: calculateResults_ledger_def defaultDeal_def Let_def)
  with m show ?thesis unfolding ledger_eval [OF ne pr it' final len] by blast
qed

lemma ex_scaled:
  fixes c :: real
  assumes "0 < c"
  shows "(\<exists>v. x = v * c \<and> w < v) \<longleftrightarrow> w * c < x"
proof
  assume "\<exists>v. x = v * c \<and> w < v"
  then obtain v where "x = v * c" "w < v" by blast
  with assms show "w * c < x" by simp
next
  assume "w * c < x"
  with assms have "x = (x / c) * c \<and> w < x / c" by (simp add: field_simps)
  then show "\<exists>v. x = v * c \<and> w < v" by blast
qed

lemma cpi_nth: "i < 180 \<Longrightarrow> MOCK_CPI_DATA ! i = 2174 / 10 + real i * (45 / 100)"
  by (simp add: MOCK_CPI_DATA_def)

lemma cpi_length: "length MOCK_CPI_DATA = 180"
  by (simp add: MOCK_CPI_DATA_def)

text \<open>
  Claim C3. The claim says that the result pipeline deflates each period's cash flow and
  gain component on its own, with \<open>toReal\<close>, before summing them into the total real
  ROI, and that it does not sum the nominal flows first and deflate the total once.
  \<open>calculateResults\<close> of App.jsx does the latter: \<open>totalNominalROI\<close> is the sum of the
  nominal appreciation, principal paid, cumulative cash flow and tax savings, and
  \<open>totalRealROI\<close> is \<open>toReal(totalNominalROI, cpiBase, cpiTimelineEnd)\<close>. On the initial
  deal of the form with a term of one year, the value the code returns is strictly above
  the per-period value: the (negative) flows of the early years are deflated with the
  index of the end of the timeline instead of their own.
\<close>

theorem calculateResults_deflates_once:
  "\<exists>v w. calculateResults_totalRealROI (defaultDeal\<lparr>termYears := 1\<rparr>) = Some v \<and>
     perPeriod_totalRealROI (defaultDeal\<lparr>termYears := 1\<rparr>) = Some w \<and> w < v"
proof -
  from failing_ledger obtain m where m: "1950 \<le> m" and
    l: "calculateResults_ledger (defaultDeal\<lparr>termYears := 1\<rparr>) =
         Some (\<lparr>year = 1, nominalCashFlow = 14604 - m * 12,
                 cumulativeNominalCashFlow = 14604 - m * 12,
                 ledgerInterestPaid = 12 * m - 360000, ledgerPrincipalPaid = 360000,
                 loanBalance = 0, taxSavings = (96 * m - 2808000) / 25\<rparr> #
               map (\<lambda>y. \<lparr>year = y, nominalCashFlow = 14604 - m * 12,
                 cumulativeNominalCashFlow = real_of_int y * (14604 - m * 12),
                 ledgerInterestPaid = 12 * m - 360000, ledgerPrincipalPaid = 360000,
                 loanBalance = 0, taxSavings = 2880\<rparr>) [2, 3, 4, 5, 6, 7, 8, 9, 10])"
    by blast
  have f: "price (defaultDeal\<lparr>termYears := 1\<rparr>) = 450000"
    "downPct (defaultDeal\<lparr>termYears := 1\<rparr>) = 20 / 100"
    "appreciationRate (defaultDeal\<lparr>termYears := 1\<rparr>) = 55 / 1000"
    "timelineYears (defaultDeal\<lparr>termYears := 1\<rparr>) = 10"
    by (simp_all add: defaultDeal_def)
  show ?thesis
    using m
    apply (simp add: calculateResults_totalRealROI_def perPeriod_totalRealROI_def l f Let_def
        nthOr_def cpi_nth cpi_length toReal_def jsDiv_def appreciationGain_def jsPow_def)
    apply (subst ex_scaled)
     apply simp
    apply (simp add: field_simps)
    done
qed


end
